theory Spec2Isabelle
  imports Complex_Main "HOL-Library.Sublist"
begin

section \<open>Strings and whitespace\<close>

text \<open>
  A Python \<open>str\<close> is a sequence of Unicode code points. The section keywords of the
  converter are Hangul and the character it removes is U+00A0, so a string is modelled
  as the list of its code points (natural numbers), not as a byte string.
\<close>

type_synonym pystr = "nat list"

text \<open>
  \<open>str.isspace\<close> on one character: the code points that \<open>str.strip()\<close> removes
  (CPython's \<open>_PyUnicode_IsWhitespace\<close>).
\<close>

definition isspace :: "nat \<Rightarrow> bool" where
  "isspace c =
     ((9 \<le> c \<and> c \<le> 13) \<or> (28 \<le> c \<and> c \<le> 32) \<or> c = 133 \<or> c = 160 \<or> c = 5760 \<or>
      (8192 \<le> c \<and> c \<le> 8202) \<or> c = 8232 \<or> c = 8233 \<or> c = 8239 \<or> c = 8287 \<or>
      c = 12288)"

text \<open>\<open>s.strip()\<close>: drop the leading and the trailing run of whitespace.\<close>

definition py_strip :: "pystr \<Rightarrow> pystr" where
  "py_strip s = rev (dropWhile isspace (rev (dropWhile isspace s)))"

text \<open>\<open>s.replace(c, "")\<close> for a one-character \<open>c\<close>: every occurrence is deleted.\<close>

definition remove_char :: "nat \<Rightarrow> pystr \<Rightarrow> pystr" where
  "remove_char c s = filter (\<lambda>x. x \<noteq> c) s"

text \<open>
  \<^verbatim>\<open>def _strip_spaces(s): return s.replace("\xa0", "").strip()\<close>
  (Isabelle names cannot start with an underscore; the leading underscore of the
  source's private helpers is dropped throughout.)
\<close>

definition strip_spaces :: "pystr \<Rightarrow> pystr" where
  "strip_spaces s = py_strip (remove_char 160 s)"

text \<open>
  The normalization as the specification words it: ordinary spaces and non-breaking
  spaces are both removed, then the text is trimmed.
\<close>

definition spec_strip_spaces :: "pystr \<Rightarrow> pystr" where
  "spec_strip_spaces s = py_strip (remove_char 32 (remove_char 160 s))"

text \<open>\<open>sub in s\<close> for strings: \<open>sub\<close> occurs as a contiguous piece of \<open>s\<close>.\<close>

fun py_in :: "pystr \<Rightarrow> pystr \<Rightarrow> bool" where
  "py_in sub [] = (sub = [])"
| "py_in sub (c # cs) = (prefix sub (c # cs) \<or> py_in sub cs)"

section \<open>Cell values and the numeric test\<close>

text \<open>
  A floating-point value is modelled by the number it denotes: a finite value (the
  rounding to binary64 is not modelled; nothing below depends on the magnitude), the
  two infinities, or NaN.
\<close>

datatype pyfloat = Finite rat | PosInf | NegInf | NaN

text \<open>
  The grid reader is external (\<open>pandas.read_excel\<close>). A cell is null, a float
  (an empty spreadsheet cell is the float NaN) or text.
\<close>

datatype cell = CNone | CFloat pyfloat | CStr pystr

datatype error = IndexError | TypeError | ValueError

text \<open>
  \<^verbatim>\<open>
  def _is_blank(v):
      if v is None: return True
      if isinstance(v, float) and pd.isna(v): return True
      if isinstance(v, str) and _strip_spaces(v) == "": return True
      return False
  \<close>
\<close>

fun is_blank :: "cell \<Rightarrow> bool" where
  "is_blank CNone = True"
| "is_blank (CFloat f) = (f = NaN)"
| "is_blank (CStr s) = (strip_spaces s = [])"

subsection \<open>\<open>float(s)\<close> on text\<close>

text \<open>
  CPython first maps the text to ASCII: a character below 127 is kept, any other
  whitespace character becomes a space, any other Unicode decimal digit (category Nd)
  becomes the ASCII digit of its value, and anything else becomes \<open>?\<close>, which no
  number contains. \<open>nd_zeros\<close> lists the zero of each block of ten decimal digits
  (Unicode 14.0).
\<close>

definition nd_zeros :: "nat list" where
  "nd_zeros = [48, 1632, 1776, 1984, 2406, 2534, 2662, 2790, 2918, 3046, 3174, 3302, 3430,
     3558, 3664, 3792, 3872, 4160, 4240, 6112, 6160, 6470, 6608, 6784, 6800, 6992, 7088,
     7232, 7248, 42528, 43216, 43264, 43472, 43504, 43600, 44016, 65296, 66720, 68912,
     69734, 69872, 69942, 70096, 70384, 70736, 70864, 71248, 71360, 71472, 71904, 72016,
     72784, 73040, 73120, 92768, 92864, 93008, 120782, 120792, 120802, 120812, 120822,
     123200, 123632, 125264, 130032]"

definition to_decimal :: "nat \<Rightarrow> nat option" where
  "to_decimal c = map_option (\<lambda>z. c - z) (find (\<lambda>z. z \<le> c \<and> c < z + 10) nd_zeros)"

definition to_ascii :: "nat \<Rightarrow> nat" where
  "to_ascii c =
     (if c < 127 then c
      else if isspace c then 32
      else (case to_decimal c of Some d \<Rightarrow> 48 + d | None \<Rightarrow> 63))"

text \<open>The ASCII whitespace that \<open>float\<close> skips at both ends (\<open>Py_ISSPACE\<close>).\<close>

definition ascii_space :: "nat \<Rightarrow> bool" where
  "ascii_space c = ((9 \<le> c \<and> c \<le> 13) \<or> c = 32)"

definition is_digit :: "nat \<Rightarrow> bool" where
  "is_digit c = (48 \<le> c \<and> c \<le> 57)"

text \<open>
  An underscore is allowed only between two digits; the first argument is the previous
  character (NUL at the start).
\<close>

fun underscores_ok :: "nat \<Rightarrow> pystr \<Rightarrow> bool" where
  "underscores_ok prev [] = (prev \<noteq> 95)"
| "underscores_ok prev (c # cs) =
     ((if c = 95 then is_digit prev else if prev = 95 then is_digit c else True) \<and>
      underscores_ok c cs)"

definition digits_val :: "pystr \<Rightarrow> nat" where
  "digits_val ds = foldl (\<lambda>a c. 10 * a + (c - 48)) 0 ds"

definition scale10 :: "nat \<Rightarrow> int \<Rightarrow> rat" where
  "scale10 m e = (if 0 \<le> e then of_nat m * 10 ^ nat e else of_nat m / 10 ^ nat (- e))"

text \<open>What follows the mantissa: nothing, or \<open>e\<close>/\<open>E\<close>, an optional sign and digits.\<close>

definition parse_exponent :: "pystr \<Rightarrow> int option" where
  "parse_exponent s =
     (case s of
        [] \<Rightarrow> Some 0
      | c # t \<Rightarrow>
          if c = 101 \<or> c = 69 then
            (let neg = (case t of [] \<Rightarrow> False | x # u \<Rightarrow> x = 45);
                 ds = (case t of [] \<Rightarrow> [] | x # u \<Rightarrow> if x = 43 \<or> x = 45 then u else t)
             in if ds \<noteq> [] \<and> list_all is_digit ds
                then Some (if neg then - int (digits_val ds) else int (digits_val ds))
                else None)
          else None)"

text \<open>\<open>digits [. digits]\<close> or \<open>. digits\<close>, then the exponent; at least one digit.\<close>

definition parse_number :: "pystr \<Rightarrow> rat option" where
  "parse_number s =
     (let ip = takeWhile is_digit s;
          r1 = dropWhile is_digit s;
          frac = (case r1 of [] \<Rightarrow> [] | c # t \<Rightarrow> if c = 46 then takeWhile is_digit t else []);
          r2 = (case r1 of [] \<Rightarrow> [] | c # t \<Rightarrow> if c = 46 then dropWhile is_digit t else r1)
      in if ip = [] \<and> frac = [] then None
         else (case parse_exponent r2 of
                 None \<Rightarrow> None
               | Some e \<Rightarrow> Some (scale10 (digits_val (ip @ frac)) (e - int (length frac)))))"

definition ascii_lower :: "nat \<Rightarrow> nat" where
  "ascii_lower c = (if 65 \<le> c \<and> c \<le> 90 then c + 32 else c)"

text \<open>After the sign: \<open>inf\<close>, \<open>infinity\<close> or \<open>nan\<close> in any letter case, or a number.\<close>

definition parse_unsigned :: "pystr \<Rightarrow> pyfloat option" where
  "parse_unsigned s =
     (let l = map ascii_lower s
      in if l = [105, 110, 102] \<or> l = [105, 110, 102, 105, 110, 105, 116, 121] then Some PosInf
         else if l = [110, 97, 110] then Some NaN
         else map_option Finite (parse_number s))"

fun negate :: "pyfloat \<Rightarrow> pyfloat" where
  "negate (Finite r) = Finite (- r)"
| "negate PosInf = NegInf"
| "negate NegInf = PosInf"
| "negate NaN = NaN"

definition float_of_str :: "pystr \<Rightarrow> pyfloat option" where
  "float_of_str s =
     (let a = map to_ascii s;
          b = rev (dropWhile ascii_space (rev (dropWhile ascii_space a)))
      in if \<not> underscores_ok 0 b then None
         else (case remove_char 95 b of
                 [] \<Rightarrow> None
               | c # t \<Rightarrow>
                   if c = 43 then parse_unsigned t
                   else if c = 45 then map_option negate (parse_unsigned t)
                   else parse_unsigned (c # t)))"

text \<open>
  \<open>float(v)\<close> on a cell: \<open>None\<close> raises TypeError, a float is returned as it is
  (NaN included), text is parsed or raises ValueError.
\<close>

fun py_float :: "cell \<Rightarrow> error + pyfloat" where
  "py_float CNone = Inl TypeError"
| "py_float (CFloat f) = Inr f"
| "py_float (CStr s) = (case float_of_str s of None \<Rightarrow> Inl ValueError | Some f \<Rightarrow> Inr f)"

text \<open>
  \<^verbatim>\<open>
  def _is_number(v):
      try:
          float(v); return True
      except Exception:
          return False
  \<close>
\<close>

definition is_number :: "cell \<Rightarrow> bool" where
  "is_number v = (case py_float v of Inl e \<Rightarrow> False | Inr f \<Rightarrow> True)"

section \<open>The grid and the records\<close>

text \<open>
  The DataFrame read with \<open>header=None\<close> is a list of rows, each a list of cells.
  \<open>df.iloc[i, j]\<close> raises IndexError outside the frame; the source only uses indices
  that are not negative.
\<close>

type_synonym grid = "cell list list"

definition iloc :: "grid \<Rightarrow> nat \<Rightarrow> nat \<Rightarrow> error + cell" where
  "iloc df i j =
     (if i < length df \<and> j < length (df ! i) then Inr (df ! i ! j) else Inl IndexError)"

text \<open>
  \<open>str(v)\<close> on a cell. The decimal rendering of a finite float is Python's \<open>repr\<close>,
  which is not part of the converter: it is the parameter \<open>fl\<close>.
\<close>

fun py_str :: "(rat \<Rightarrow> pystr) \<Rightarrow> cell \<Rightarrow> pystr" where
  "py_str fl CNone = [78, 111, 110, 101]"
| "py_str fl (CFloat (Finite r)) = fl r"
| "py_str fl (CFloat PosInf) = [105, 110, 102]"
| "py_str fl (CFloat NegInf) = [45, 105, 110, 102]"
| "py_str fl (CFloat NaN) = [110, 97, 110]"
| "py_str fl (CStr s) = s"

text \<open>
  The four values of \<open>current_meal\<close>, with the label each stands for:
  U+C544 U+CE68 (breakfast), U+C810 U+C2EC (lunch), U+C800 U+B141 (dinner), each followed
  by a space and U+C2DD U+C0AC, and U+AC04 U+C2DD / U+AE30 U+D0C0 (snack/other).
\<close>

datatype meal = Breakfast | Lunch | Dinner | Snack

fun meal_label :: "meal \<Rightarrow> pystr" where
  "meal_label Breakfast = [50500, 52840, 32, 49885, 49324]"
| "meal_label Lunch = [51216, 49900, 32, 49885, 49324]"
| "meal_label Dinner = [51200, 45377, 32, 49885, 49324]"
| "meal_label Snack = [44036, 49885, 47, 44592, 53440]"

definition kw_breakfast :: pystr where "kw_breakfast = [50500, 52840]"
definition kw_lunch :: pystr where "kw_lunch = [51216, 49900]"
definition kw_dinner :: pystr where "kw_dinner = [51200, 45377]"
definition kw_snack_slash :: pystr where "kw_snack_slash = [44036, 49885, 47, 44592, 53440]"
definition kw_snack :: pystr where "kw_snack = [44036, 49885, 44592, 53440]"

text \<open>
  Step 1 of the loop body: the new value of \<open>current_meal\<close> for the first cell of the row.
  \<^verbatim>\<open>
  if isinstance(first, str):
      cell = _strip_spaces(first)
      if "..." in cell: current_meal = ...
      elif ...
  \<close>
\<close>

fun update_meal :: "cell \<Rightarrow> meal option \<Rightarrow> meal option" where
  "update_meal (CStr first) cur =
     (let cell = strip_spaces first
      in if py_in kw_breakfast cell then Some Breakfast
         else if py_in kw_lunch cell then Some Lunch
         else if py_in kw_dinner cell then Some Dinner
         else if py_in kw_snack_slash cell \<or> py_in kw_snack cell then Some Snack
         else cur)"
| "update_meal CNone cur = cur"
| "update_meal (CFloat f) cur = cur"

record food_record =
  rec_date :: pystr
  rec_name :: pystr
  rec_qty :: pystr
  rec_meal :: meal
  fat :: "pyfloat option"
  carb :: "pyfloat option"
  protein :: "pyfloat option"
  cal :: "pyfloat option"

record scan_state =
  current_meal :: "meal option"
  records :: "food_record list"

section \<open>The scanner\<close>

text \<open>
  \<^verbatim>\<open>
  while r < n_rows and _is_blank(df.iloc[r, 0]):
      r += 1
  \<close>
  The value of \<open>r\<close> when the loop ends.
\<close>

function skip_blank :: "grid \<Rightarrow> nat \<Rightarrow> error + nat" where
  "skip_blank df r =
     (if r < length df then
        (case iloc df r 0 of
           Inl e \<Rightarrow> Inl e
         | Inr c \<Rightarrow> if is_blank c then skip_blank df (Suc r) else Inr r)
      else Inr r)"
  by pat_completeness auto
termination
  by (relation "measure (\<lambda>(df, r). length df - r)") auto

declare skip_blank.simps [simp del]

text \<open>\<open>[df.iloc[i, j] for j in range(1, 5)]\<close>\<close>

definition macro_cells :: "grid \<Rightarrow> nat \<Rightarrow> error + cell list" where
  "macro_cells df i =
     (case iloc df i 1 of Inl e \<Rightarrow> Inl e | Inr a \<Rightarrow>
      case iloc df i 2 of Inl e \<Rightarrow> Inl e | Inr b \<Rightarrow>
      case iloc df i 3 of Inl e \<Rightarrow> Inl e | Inr c \<Rightarrow>
      case iloc df i 4 of Inl e \<Rightarrow> Inl e | Inr d \<Rightarrow> Inr [a, b, c, d])"

text \<open>\<open>float(v) if _is_number(v) else None\<close>\<close>

definition to_macro :: "cell \<Rightarrow> pyfloat option" where
  "to_macro v = (if is_number v then (case py_float v of Inl e \<Rightarrow> None | Inr f \<Rightarrow> Some f) else None)"

text \<open>
  Step 3 of the loop body: the name and the quantity for the macro row \<open>i\<close>, or
  \<open>None\<close> where the source leaves the iteration because no name row is left.
\<close>

definition find_name_qty :: "(rat \<Rightarrow> pystr) \<Rightarrow> grid \<Rightarrow> nat \<Rightarrow> error + (pystr \<times> pystr) option" where
  "find_name_qty fl df i =
     (case skip_blank df (i + 1) of Inl e \<Rightarrow> Inl e | Inr name_row \<Rightarrow>
      if name_row \<ge> length df then Inr None
      else
       (case iloc df name_row 0 of Inl e \<Rightarrow> Inl e | Inr name_val \<Rightarrow>
        case skip_blank df (name_row + 1) of Inl e \<Rightarrow> Inl e | Inr qty_row \<Rightarrow>
        if qty_row < length df then
          (case iloc df qty_row 0 of Inl e \<Rightarrow> Inl e | Inr q \<Rightarrow>
             Inr (Some (strip_spaces (py_str fl name_val),
                        if \<not> is_blank q then strip_spaces (py_str fl q) else [])))
        else Inr (Some (strip_spaces (py_str fl name_val), []))))"

text \<open>
  One iteration of \<open>for i in range(n_rows)\<close>: the state after row \<open>i\<close>, or the
  exception that ends the scan.
\<close>

definition scan_row :: "(rat \<Rightarrow> pystr) \<Rightarrow> grid \<Rightarrow> pystr \<Rightarrow> nat \<Rightarrow> scan_state \<Rightarrow> error + scan_state" where
  "scan_row fl df date_str i st =
     (case iloc df i 0 of Inl e \<Rightarrow> Inl e | Inr first \<Rightarrow>
      let st1 = st\<lparr>current_meal := update_meal first (current_meal st)\<rparr>
      in if \<not> is_blank first then Inr st1
         else
          (case macro_cells df i of Inl e \<Rightarrow> Inl e | Inr macro_vals \<Rightarrow>
           if \<not> list_ex is_number macro_vals then Inr st1
           else
            (case current_meal st1 of None \<Rightarrow> Inr st1 | Some m \<Rightarrow>
             case find_name_qty fl df i of
               Inl e \<Rightarrow> Inl e
             | Inr None \<Rightarrow> Inr st1
             | Inr (Some (name, qty)) \<Rightarrow>
                 Inr (st1\<lparr>records := records st1 @
                   [\<lparr>rec_date = date_str, rec_name = name, rec_qty = qty, rec_meal = m,
                     fat = to_macro (macro_vals ! 0), carb = to_macro (macro_vals ! 1),
                     protein = to_macro (macro_vals ! 2), cal = to_macro (macro_vals ! 3)\<rparr>]\<rparr>))))"

fun for_rows :: "(nat \<Rightarrow> scan_state \<Rightarrow> error + scan_state) \<Rightarrow> nat list \<Rightarrow> scan_state \<Rightarrow> error + scan_state" where
  "for_rows body [] st = Inr st"
| "for_rows body (i # is) st =
     (case body i st of Inl e \<Rightarrow> Inl e | Inr st' \<Rightarrow> for_rows body is st')"

definition init_state :: scan_state where
  "init_state = \<lparr>current_meal = None, records = []\<rparr>"

text \<open>\<open>date_str = _strip_spaces(str(raw_date)) if raw_date is not None else ""\<close>\<close>

definition date_of :: "(rat \<Rightarrow> pystr) \<Rightarrow> cell \<Rightarrow> pystr" where
  "date_of fl raw_date = (if raw_date \<noteq> CNone then strip_spaces (py_str fl raw_date) else [])"

text \<open>The state of the scan after the rows \<open>0, \<dots>, k - 1\<close>.\<close>

definition scan_upto :: "(rat \<Rightarrow> pystr) \<Rightarrow> grid \<Rightarrow> pystr \<Rightarrow> nat \<Rightarrow> error + scan_state" where
  "scan_upto fl df date_str k = for_rows (scan_row fl df date_str) [0..<k] init_state"

definition parse_diet_file :: "(rat \<Rightarrow> pystr) \<Rightarrow> grid \<Rightarrow> error + food_record list" where
  "parse_diet_file fl df =
     (case iloc df 0 0 of Inl e \<Rightarrow> Inl e | Inr raw_date \<Rightarrow>
      case scan_upto fl df (date_of fl raw_date) (length df) of
        Inl e \<Rightarrow> Inl e
      | Inr st \<Rightarrow> Inr (records st))"

section \<open>The filter of \<open>main\<close>\<close>





section \<open>Notions used to state the properties\<close>

text \<open>Row \<open>j\<close> exists and its column-0 cell is blank for \<open>_is_blank\<close>.\<close>

definition blank0 :: "grid \<Rightarrow> nat \<Rightarrow> bool" where
  "blank0 df j = (case iloc df j 0 of Inl e \<Rightarrow> False | Inr c \<Rightarrow> is_blank c)"

text \<open>
  The section whose keyword the column-0 cell of row \<open>k\<close> contains (the value step 1
  assigns to the cursor at that row), or \<open>None\<close> when the cell holds no section keyword.
\<close>

definition row_section :: "grid \<Rightarrow> nat \<Rightarrow> meal option" where
  "row_section df k = (case iloc df k 0 of Inl e \<Rightarrow> None | Inr c \<Rightarrow> update_meal c None)"

text \<open>The section of the last keyword row among the rows \<open>0, \<dots>, k - 1\<close>.\<close>

fun last_section :: "grid \<Rightarrow> nat \<Rightarrow> meal option" where
  "last_section df 0 = None"
| "last_section df (Suc k) =
     (case row_section df k of Some m \<Rightarrow> Some m | None \<Rightarrow> last_section df k)"

text \<open>Row \<open>i\<close> passes step 2: a blank first cell and a number among the columns 1 to 4.\<close>

definition macro_row :: "grid \<Rightarrow> nat \<Rightarrow> bool" where
  "macro_row df i =
     (blank0 df i \<and> (case macro_cells df i of Inl e \<Rightarrow> False | Inr vals \<Rightarrow> list_ex is_number vals))"

text \<open>Every row has the five columns the scanner reads.\<close>

definition wide :: "grid \<Rightarrow> bool" where
  "wide df = list_all (\<lambda>row. 5 \<le> length row) df"

section \<open>Example sheets\<close>

text \<open>
  A sheet as the reader delivers it (empty cells are NaN): the date \<open>D\<close>, a summary row
  of numbers before any section, the lunch header, a macro row, and the names \<open>A\<close> and
  \<open>B\<close>, each below an empty row.
\<close>

definition sheet_a :: grid where
  "sheet_a =
     [[CStr [68], CFloat NaN, CFloat NaN, CFloat NaN, CFloat NaN],
      [CFloat NaN, CFloat (Finite 1), CFloat NaN, CFloat NaN, CFloat NaN],
      [CStr [51216, 49900], CFloat NaN, CFloat NaN, CFloat NaN, CFloat NaN],
      [CFloat NaN, CFloat (Finite 150), CFloat NaN, CFloat NaN, CFloat NaN],
      [CFloat NaN, CFloat NaN, CFloat NaN, CFloat NaN, CFloat NaN],
      [CStr [65], CFloat NaN, CFloat NaN, CFloat NaN, CFloat NaN],
      [CFloat NaN, CFloat NaN, CFloat NaN, CFloat NaN, CFloat NaN],
      [CStr [66], CFloat NaN, CFloat NaN, CFloat NaN, CFloat NaN]]"

text \<open>A sheet that ends with a macro row and an empty row.\<close>

definition sheet_b :: grid where
  "sheet_b =
     [[CStr [68], CFloat NaN, CFloat NaN, CFloat NaN, CFloat NaN],
      [CStr [51216, 49900], CFloat NaN, CFloat NaN, CFloat NaN, CFloat NaN],
      [CFloat NaN, CFloat (Finite 150), CFloat NaN, CFloat NaN, CFloat NaN],
      [CFloat NaN, CFloat NaN, CFloat NaN, CFloat NaN, CFloat NaN]]"

text \<open>
  A sheet without any section header: the date, a macro row, and a name row that is the
  last row.
\<close>

definition sheet_c :: grid where
  "sheet_c =
     [[CStr [68], CFloat NaN, CFloat NaN, CFloat NaN, CFloat NaN],
      [CFloat NaN, CFloat (Finite 1), CFloat (Finite 2), CFloat (Finite 3), CFloat (Finite 4)],
      [CStr [65], CFloat NaN, CFloat NaN, CFloat NaN, CFloat NaN]]"

text \<open>A rendering of finite floats for the examples; no example renders one.\<close>

definition no_repr :: "rat \<Rightarrow> pystr" where
  "no_repr r = []"

text \<open>The records the scanner returns for \<open>sheet_a\<close>.\<close>

definition rec_a1 :: food_record where
  "rec_a1 = \<lparr>rec_date = [68], rec_name = [65], rec_qty = [66], rec_meal = Lunch,
     fat = Some (Finite 150), carb = Some NaN, protein = Some NaN, cal = Some NaN\<rparr>"

definition rec_a2 :: food_record where
  "rec_a2 = \<lparr>rec_date = [68], rec_name = [65], rec_qty = [66], rec_meal = Lunch,
     fat = Some NaN, carb = Some NaN, protein = Some NaN, cal = Some NaN\<rparr>"

definition rec_a3 :: food_record where
  "rec_a3 = \<lparr>rec_date = [68], rec_name = [66], rec_qty = [], rec_meal = Lunch,
     fat = Some NaN, carb = Some NaN, protein = Some NaN, cal = Some NaN\<rparr>"

section \<open>Properties of the string helpers and of the numeric test\<close>

lemma py_strip_decomp:
  "\<exists>p q. t = p @ py_strip t @ q \<and> list_all isspace p \<and> list_all isspace q"
proof -
  define u where "u = dropWhile isspace t"
  have t: "t = takeWhile isspace t @ u" by (simp add: u_def)
  have "rev (takeWhile isspace (rev u) @ dropWhile isspace (rev u)) = rev (rev u)"
    by (simp only: takeWhile_dropWhile_id)
  then have "rev (dropWhile isspace (rev u)) @ rev (takeWhile isspace (rev u)) = u"
    by (simp only: rev_append rev_rev_ident)
  then have u: "u = py_strip t @ rev (takeWhile isspace (rev u))"
    by (simp only: py_strip_def u_def)
  have p: "list_all isspace (takeWhile isspace t)"
    by (simp add: list_all_iff) (meson set_takeWhileD)
  have q: "list_all isspace (rev (takeWhile isspace (rev u)))"
    by (simp add: list_all_iff) (meson set_takeWhileD)
  from t u have "t = takeWhile isspace t @ py_strip t @ rev (takeWhile isspace (rev u))" by simp
  with p q show ?thesis by blast
qed

lemma py_strip_ends:
  assumes "py_strip t \<noteq> []"
  shows "\<not> isspace (hd (py_strip t)) \<and> \<not> isspace (last (py_strip t))"
proof -
  define u where "u = dropWhile isspace t"
  define w where "w = dropWhile isspace (rev u)"
  have s: "py_strip t = rev w" by (simp add: py_strip_def u_def w_def)
  with assms have wne: "w \<noteq> []" by simp
  then have "\<not> isspace (hd w)" unfolding w_def by (rule hd_dropWhile)
  then have l: "\<not> isspace (last (py_strip t))" using wne by (simp add: s last_rev)
  have "rev u = takeWhile isspace (rev u) @ w" by (simp add: w_def)
  then have "rev (rev u) = rev (takeWhile isspace (rev u) @ w)" by simp
  then have u: "u = rev w @ rev (takeWhile isspace (rev u))" by simp
  then have une: "u \<noteq> []" using wne by auto
  have "hd u = hd (rev w)" using u wne by (metis hd_append2 rev_is_Nil_conv)
  moreover have "\<not> isspace (hd u)" using une unfolding u_def by (rule hd_dropWhile)
  ultimately show ?thesis using l by (simp add: s)
qed

text \<open>
  The numeric test accepts every float cell and rejects \<open>None\<close> and every text that is
  blank for \<open>_is_blank\<close>.
\<close>

lemma py_strip_Nil: "py_strip t = [] \<Longrightarrow> list_all isspace t"
proof -
  assume a: "py_strip t = []"
  obtain p q where d: "t = p @ py_strip t @ q" "list_all isspace p" "list_all isspace q"
    using py_strip_decomp [of t] by blast
  from d(1) a have "t = p @ q" by simp
  with d(2,3) show ?thesis by (metis list_all_append)
qed

lemma blank_text_all_space:
  assumes "strip_spaces s = []"
  shows "list_all isspace s"
proof -
  from assms have "list_all isspace (remove_char 160 s)"
    by (intro py_strip_Nil) (simp add: strip_spaces_def)
  then have "\<forall>c \<in> set s. c \<noteq> 160 \<longrightarrow> isspace c"
    by (auto simp: remove_char_def list_all_iff)
  moreover have "isspace 160" by (simp add: isspace_def)
  ultimately show ?thesis by (auto simp: list_all_iff)
qed

lemma to_ascii_space:
  "isspace c \<Longrightarrow> (9 \<le> to_ascii c \<and> to_ascii c \<le> 13) \<or> (28 \<le> to_ascii c \<and> to_ascii c \<le> 32)"
  by (auto simp: to_ascii_def isspace_def)

lemma parse_unsigned_control:
  assumes "28 \<le> c" and "c \<le> 31"
  shows "parse_unsigned (c # t) = None"
proof -
  have "ascii_lower c = c" using assms by (simp add: ascii_lower_def)
  moreover have "\<not> is_digit c" using assms by (simp add: is_digit_def)
  ultimately show ?thesis
    using assms by (auto simp: parse_unsigned_def parse_number_def Let_def)
qed

lemma float_of_blank_text:
  assumes "strip_spaces s = []"
  shows "float_of_str s = None"
proof -
  define a where "a = map to_ascii s"
  define b where "b = rev (dropWhile ascii_space (rev (dropWhile ascii_space a)))"
  have A: "\<forall>c \<in> set a. (9 \<le> c \<and> c \<le> 13) \<or> (28 \<le> c \<and> c \<le> 32)"
    using blank_text_all_space [OF assms] to_ascii_space
    by (auto simp: a_def list_all_iff)
  have sub: "set b \<subseteq> set a"
  proof -
    have "set b \<subseteq> set (dropWhile ascii_space a)"
      unfolding b_def using set_dropWhileD by fastforce
    also have "\<dots> \<subseteq> set a" using set_dropWhileD by fastforce
    finally show ?thesis .
  qed
  have B: "\<forall>c \<in> set b. (9 \<le> c \<and> c \<le> 13) \<or> (28 \<le> c \<and> c \<le> 32)" using A sub by blast
  have unfold: "float_of_str s =
      (if \<not> underscores_ok 0 b then None
       else (case remove_char 95 b of
               [] \<Rightarrow> None
             | c # t \<Rightarrow>
                 if c = 43 then parse_unsigned t
                 else if c = 45 then map_option negate (parse_unsigned t)
                 else parse_unsigned (c # t)))"
    by (simp add: float_of_str_def Let_def a_def b_def)
  show ?thesis
  proof (cases b)
    case Nil
    then show ?thesis by (simp add: unfold remove_char_def)
  next
    case (Cons c t)
    have "dropWhile ascii_space a =
        rev (dropWhile ascii_space (rev (dropWhile ascii_space a))) @
        rev (takeWhile ascii_space (rev (dropWhile ascii_space a)))"
      by (metis rev_append rev_rev_ident takeWhile_dropWhile_id)
    then have dec: "dropWhile ascii_space a =
        c # t @ rev (takeWhile ascii_space (rev (dropWhile ascii_space a)))"
      using Cons by (simp add: b_def)
    then obtain w where w: "dropWhile ascii_space a = c # w" by blast
    have "\<not> ascii_space c" using hd_dropWhile [of ascii_space a] by (simp add: w)
    moreover have "(9 \<le> c \<and> c \<le> 13) \<or> (28 \<le> c \<and> c \<le> 32)" using B Cons by simp
    ultimately have c: "28 \<le> c" "c \<le> 31" by (auto simp: ascii_space_def)
    have "remove_char 95 b = c # remove_char 95 t"
      using Cons c by (simp add: remove_char_def)
    then show ?thesis
      using c parse_unsigned_control [OF c] by (simp add: unfold)
  qed
qed

lemma is_number_rejects_other_blanks:
  "\<not> is_number CNone" "strip_spaces s = [] \<Longrightarrow> \<not> is_number (CStr s)"
  by (simp_all add: is_number_def float_of_blank_text)

lemma is_number_accepts_floats: "is_number (CFloat f)"
  by (simp add: is_number_def)

lemma is_number_examples:
  "is_number (CStr [49, 53, 48])" "is_number (CStr [49, 50, 46, 53])"
  "\<not> is_number (CStr [97, 98, 99])" "is_number (CStr [110, 97, 110])"
  by code_simp+

text \<open>
  C1 (numeric test). The claim has \<open>_is_number\<close> reject every blank value, the
  NaN-equivalent ones included. The float NaN, which is what an empty spreadsheet cell
  is read as and which \<open>_is_blank\<close> counts as blank, passes the numeric test, because
  \<open>float(nan)\<close> raises nothing.
\<close>

theorem is_number_accepts_nan:
  "is_number (CFloat NaN) \<and> is_blank (CFloat NaN)"
  by (simp add: is_number_def)

text \<open>
  C8 (whitespace normalization), as stated: ordinary spaces are removed as well. An
  ordinary space inside the text survives \<open>_strip_spaces\<close>, so the function differs from
  the normalization the claim words.
\<close>

theorem strip_spaces_keeps_inner_space:
  "strip_spaces [97, 32, 98] = [97, 32, 98] \<and> spec_strip_spaces [97, 32, 98] = [97, 98]"
  by (simp add: strip_spaces_def spec_strip_spaces_def py_strip_def remove_char_def isspace_def)

text \<open>
  C8 (whitespace normalization), amended: the result contains no non-breaking space; it is
  the text without its non-breaking spaces, less a leading and a trailing run of
  whitespace (so every other character, ordinary spaces inside the text included, is
  kept in place); and it neither starts nor ends with whitespace.
\<close>

theorem strip_spaces_removes_nbsp_and_trims:
  "160 \<notin> set (strip_spaces s) \<and>
   (\<exists>p q. remove_char 160 s = p @ strip_spaces s @ q \<and> list_all isspace p \<and> list_all isspace q) \<and>
   (strip_spaces s = [] \<or>
      (\<not> isspace (hd (strip_spaces s)) \<and> \<not> isspace (last (strip_spaces s))))"
proof -
  obtain p q where pq: "remove_char 160 s = p @ strip_spaces s @ q"
      "list_all isspace p" "list_all isspace q"
    using py_strip_decomp [of "remove_char 160 s"] by (auto simp: strip_spaces_def)
  have "160 \<notin> set (remove_char 160 s)" by (simp add: remove_char_def)
  then have "160 \<notin> set (strip_spaces s)" using pq(1) by auto
  moreover have "strip_spaces s = [] \<or>
      (\<not> isspace (hd (strip_spaces s)) \<and> \<not> isspace (last (strip_spaces s)))"
    using py_strip_ends [of "remove_char 160 s"] by (auto simp: strip_spaces_def)
  ultimately show ?thesis using pq by blast
qed

theorem strip_spaces_removes_nbsp_and_trims_witness:
  "strip_spaces [32, 97, 32, 160, 98, 160] = [97, 32, 98] \<and>
   160 \<notin> set (strip_spaces [32, 97, 32, 160, 98, 160]) \<and>
   (\<exists>p q. remove_char 160 [32, 97, 32, 160, 98, 160] = p @ strip_spaces [32, 97, 32, 160, 98, 160] @ q \<and>
      list_all isspace p \<and> list_all isspace q) \<and>
   \<not> isspace (hd (strip_spaces [32, 97, 32, 160, 98, 160])) \<and>
   \<not> isspace (last (strip_spaces [32, 97, 32, 160, 98, 160]))"
proof -
  have e: "strip_spaces [32, 97, 32, 160, 98, 160] = [97, 32, 98]"
    by (simp add: strip_spaces_def py_strip_def remove_char_def isspace_def)
  show ?thesis
    using strip_spaces_removes_nbsp_and_trims [of "[32, 97, 32, 160, 98, 160]"]
    unfolding e by simp
qed

section \<open>Properties of the scanner\<close>

subsection \<open>The loop and its cursor\<close>

lemma for_rows_append:
  "for_rows body (xs @ ys) st =
     (case for_rows body xs st of Inl e \<Rightarrow> Inl e | Inr st' \<Rightarrow> for_rows body ys st')"
  by (induction xs arbitrary: st) (auto split: sum.splits)

lemma scan_upto_0: "scan_upto fl df d 0 = Inr init_state"
  by (simp add: scan_upto_def)

lemma scan_upto_Suc:
  "scan_upto fl df d (Suc k) =
     (case scan_upto fl df d k of Inl e \<Rightarrow> Inl e | Inr st \<Rightarrow> scan_row fl df d k st)"
  by (simp add: scan_upto_def for_rows_append split: sum.splits)

lemma scan_row_Inr:
  assumes "scan_row fl df d i st = Inr st'"
  shows "\<exists>first. iloc df i 0 = Inr first \<and>
           current_meal st' = update_meal first (current_meal st) \<and>
           (records st' = records st \<or>
            (\<exists>r. records st' = records st @ [r] \<and> rec_date r = d \<and> is_blank first \<and>
                 current_meal st' = Some (rec_meal r)))"
  using assms unfolding scan_row_def
  by (auto simp: Let_def split: sum.splits option.splits if_splits prod.splits)

lemma py_in_nonempty_Nil: "sub \<noteq> [] \<Longrightarrow> \<not> py_in sub []"
  by simp

lemma update_meal_blank: "is_blank c \<Longrightarrow> update_meal c cur = cur"
  by (cases c) (simp_all add: kw_breakfast_def kw_lunch_def kw_dinner_def kw_snack_slash_def kw_snack_def)

lemma update_meal_section:
  "update_meal c cur = (case update_meal c None of Some m \<Rightarrow> Some m | None \<Rightarrow> cur)"
  by (cases c) (simp_all add: Let_def)

lemma cursor_last_section:
  "scan_upto fl df d k = Inr st \<Longrightarrow> current_meal st = last_section df k"
proof (induction k arbitrary: st)
  case 0
  then show ?case by (auto simp: scan_upto_0 init_state_def)
next
  case (Suc k)
  from Suc.prems obtain st0 where s0: "scan_upto fl df d k = Inr st0"
      and r: "scan_row fl df d k st0 = Inr st"
    by (auto simp: scan_upto_Suc split: sum.splits)
  from scan_row_Inr [OF r] obtain first where f: "iloc df k 0 = Inr first"
      and c: "current_meal st = update_meal first (current_meal st0)" by blast
  from Suc.IH [OF s0] have "current_meal st0 = last_section df k" .
  with c f show ?case
    using update_meal_section [of first "last_section df k"]
    by (simp add: row_section_def)
qed

lemma last_section_Some:
  "last_section df i = Some m \<Longrightarrow>
     \<exists>k<i. row_section df k = Some m \<and> (\<forall>j. k < j \<and> j < i \<longrightarrow> row_section df j = None)"
proof (induction i)
  case 0
  then show ?case by simp
next
  case (Suc i)
  show ?case
  proof (cases "row_section df i")
    case None
    with Suc.prems have "last_section df i = Some m" by simp
    from Suc.IH [OF this] obtain k where k: "k < i" "row_section df k = Some m"
        "\<forall>j. k < j \<and> j < i \<longrightarrow> row_section df j = None" by blast
    have "\<forall>j. k < j \<and> j < Suc i \<longrightarrow> row_section df j = None"
      using k(3) None by (auto simp: less_Suc_eq)
    with k(1,2) show ?thesis by (metis less_SucI)
  next
    case (Some m')
    with Suc.prems have "m' = m" by simp
    with Some show ?thesis by auto
  qed
qed

lemma last_section_None:
  "(\<forall>k<i. row_section df k = None) \<Longrightarrow> last_section df i = None"
  by (induction i) auto

lemma last_section_seen:
  "k < i \<Longrightarrow> row_section df k \<noteq> None \<Longrightarrow> last_section df i \<noteq> None"
  by (induction i) (auto simp: less_Suc_eq split: option.splits)

lemma skip_blank_found:
  assumes "k < length df" and "iloc df k 0 = Inr c" and "\<not> is_blank c"
    and "a \<le> k" and "\<forall>j. a \<le> j \<and> j < k \<longrightarrow> blank0 df j"
  shows "skip_blank df a = Inr k"
  using assms(4,5)
proof (induction "k - a" arbitrary: a)
  case 0
  then have "a = k" by simp
  with assms(1-3) show ?case by (simp add: skip_blank.simps)
next
  case (Suc n)
  then have lt: "a < k" by simp
  with Suc.prems have b: "blank0 df a" by simp
  have "skip_blank df (Suc a) = Inr k"
    using Suc.hyps(2) Suc.prems lt by (intro Suc.hyps(1)) auto
  with b lt assms(1) show ?case
    by (subst skip_blank.simps) (auto simp: blank0_def split: sum.splits)
qed

lemma skip_blank_exhausted:
  assumes "a \<le> length df" and "\<forall>j. a \<le> j \<and> j < length df \<longrightarrow> blank0 df j"
  shows "skip_blank df a = Inr (length df)"
  using assms
proof (induction "length df - a" arbitrary: a)
  case 0
  then show ?case by (simp add: skip_blank.simps)
next
  case (Suc n)
  then have lt: "a < length df" by simp
  with Suc.prems have b: "blank0 df a" by simp
  have "skip_blank df (Suc a) = Inr (length df)"
    using Suc.hyps(2) Suc.prems lt by (intro Suc.hyps(1)) auto
  with b lt show ?case
    by (subst skip_blank.simps) (auto simp: blank0_def split: sum.splits)
qed

lemma scan_row_macro:
  assumes "macro_row df i" and "current_meal st = Some m"
  shows "scan_row fl df d i st =
     (case find_name_qty fl df i of
        Inl e \<Rightarrow> Inl e
      | Inr None \<Rightarrow> Inr st
      | Inr (Some (name, qty)) \<Rightarrow>
          (case macro_cells df i of
             Inl e \<Rightarrow> Inl e
           | Inr vals \<Rightarrow>
               Inr (st\<lparr>records := records st @
                 [\<lparr>rec_date = d, rec_name = name, rec_qty = qty, rec_meal = m,
                   fat = to_macro (vals ! 0), carb = to_macro (vals ! 1),
                   protein = to_macro (vals ! 2), cal = to_macro (vals ! 3)\<rparr>]\<rparr>)))"
proof -
  from assms(1) obtain first vals where f: "iloc df i 0 = Inr first" "is_blank first"
      and v: "macro_cells df i = Inr vals" "list_ex is_number vals"
    by (auto simp: macro_row_def blank0_def split: sum.splits)
  have u: "update_meal first (current_meal st) = Some m"
    using update_meal_blank [OF f(2)] assms(2) by simp
  have st: "st\<lparr>current_meal := Some m\<rparr> = st" using assms(2) by simp
  show ?thesis
    unfolding scan_row_def
    by (simp add: f v update_meal_blank [OF f(2)] st assms(2) Let_def
        split: sum.splits option.splits prod.splits)
qed

lemma scan_row_macro_no_section:
  assumes "macro_row df i" and "current_meal st = None"
  shows "scan_row fl df d i st = Inr st"
proof -
  from assms(1) obtain first vals where f: "iloc df i 0 = Inr first" "is_blank first"
      and v: "macro_cells df i = Inr vals" "list_ex is_number vals"
    by (auto simp: macro_row_def blank0_def split: sum.splits)
  have u: "update_meal first (current_meal st) = None"
    using update_meal_blank [OF f(2)] assms(2) by simp
  have st: "st\<lparr>current_meal := None\<rparr> = st" using assms(2) by simp
  show ?thesis
    unfolding scan_row_def by (simp add: f v update_meal_blank [OF f(2)] st assms(2) Let_def)
qed

lemma find_name_qty_exhausted:
  assumes "i < length df" and "\<forall>j. i < j \<and> j < length df \<longrightarrow> blank0 df j"
  shows "find_name_qty fl df i = Inr None"
proof -
  have "skip_blank df (Suc i) = Inr (length df)"
    using assms by (intro skip_blank_exhausted) auto
  then show ?thesis by (simp add: find_name_qty_def)
qed

lemma find_name_qty_both:
  assumes "i < k" and "k < q" and "q < length df"
    and "\<forall>j. i < j \<and> j < k \<longrightarrow> blank0 df j" and "iloc df k 0 = Inr cn" and "\<not> is_blank cn"
    and "\<forall>j. k < j \<and> j < q \<longrightarrow> blank0 df j" and "iloc df q 0 = Inr cq" and "\<not> is_blank cq"
  shows "find_name_qty fl df i =
           Inr (Some (strip_spaces (py_str fl cn), strip_spaces (py_str fl cq)))"
proof -
  have n: "skip_blank df (Suc i) = Inr k"
    using assms by (intro skip_blank_found [where c = cn]) auto
  have q: "skip_blank df (Suc k) = Inr q"
    using assms by (intro skip_blank_found [where c = cq]) auto
  from assms(1-3) have "k < length df" by simp
  then show ?thesis using assms(3,5,6,8,9) by (simp add: find_name_qty_def n q)
qed

lemma find_name_qty_name_only:
  assumes "i < k" and "k < length df"
    and "\<forall>j. i < j \<and> j < k \<longrightarrow> blank0 df j" and "iloc df k 0 = Inr cn" and "\<not> is_blank cn"
    and "\<forall>j. k < j \<and> j < length df \<longrightarrow> blank0 df j"
  shows "find_name_qty fl df i = Inr (Some (strip_spaces (py_str fl cn), []))"
proof -
  have n: "skip_blank df (Suc i) = Inr k"
    using assms by (intro skip_blank_found [where c = cn]) auto
  have q: "skip_blank df (Suc k) = Inr (length df)"
    using assms by (intro skip_blank_exhausted) auto
  show ?thesis using assms(2,4) by (simp add: find_name_qty_def n q)
qed

lemma macro_row_cells: "macro_row df i \<Longrightarrow> \<exists>vals. macro_cells df i = Inr vals"
  by (auto simp: macro_row_def split: sum.splits)

subsection \<open>Section keywords\<close>

text \<open>
  C9 (keyword priority). When the column-0 cell of row \<open>i\<close> is text, the cursor after the
  row is Breakfast if the normalized text contains the breakfast keyword, whatever else
  it contains; otherwise Lunch if it contains the lunch keyword; otherwise Dinner;
  otherwise Snack/Other for either spelling of that keyword; and unchanged when the text
  contains no keyword.
\<close>

theorem section_keyword_priority:
  assumes "iloc df i 0 = Inr (CStr t)" and "scan_row fl df d i st = Inr st'"
  shows "(py_in kw_breakfast (strip_spaces t) \<longrightarrow> current_meal st' = Some Breakfast) \<and>
         (\<not> py_in kw_breakfast (strip_spaces t) \<and> py_in kw_lunch (strip_spaces t) \<longrightarrow>
            current_meal st' = Some Lunch) \<and>
         (\<not> py_in kw_breakfast (strip_spaces t) \<and> \<not> py_in kw_lunch (strip_spaces t) \<and>
          py_in kw_dinner (strip_spaces t) \<longrightarrow> current_meal st' = Some Dinner) \<and>
         (\<not> py_in kw_breakfast (strip_spaces t) \<and> \<not> py_in kw_lunch (strip_spaces t) \<and>
          \<not> py_in kw_dinner (strip_spaces t) \<and>
          (py_in kw_snack_slash (strip_spaces t) \<or> py_in kw_snack (strip_spaces t)) \<longrightarrow>
            current_meal st' = Some Snack) \<and>
         (\<not> py_in kw_breakfast (strip_spaces t) \<and> \<not> py_in kw_lunch (strip_spaces t) \<and>
          \<not> py_in kw_dinner (strip_spaces t) \<and> \<not> py_in kw_snack_slash (strip_spaces t) \<and>
          \<not> py_in kw_snack (strip_spaces t) \<longrightarrow> current_meal st' = current_meal st)"
proof -
  from scan_row_Inr [OF assms(2)] assms(1)
  have "current_meal st' = update_meal (CStr t) (current_meal st)" by auto
  then show ?thesis by (simp add: Let_def)
qed

lemma strip_lunch_breakfast:
  "strip_spaces [51216, 49900, 32, 50500, 52840] = [51216, 49900, 32, 50500, 52840]"
  by (simp add: strip_spaces_def py_strip_def remove_char_def isspace_def)

lemma scan_row_lunch_breakfast:
  "scan_row (\<lambda>r. []) [[CStr [51216, 49900, 32, 50500, 52840]]] [] 0 init_state =
     Inr \<lparr>current_meal = Some Breakfast, records = []\<rparr>"
  by (simp add: scan_row_def iloc_def strip_lunch_breakfast kw_breakfast_def init_state_def)

theorem section_keyword_priority_witness:
  "py_in kw_breakfast (strip_spaces [51216, 49900, 32, 50500, 52840]) \<and>
   py_in kw_lunch (strip_spaces [51216, 49900, 32, 50500, 52840]) \<and>
   current_meal \<lparr>current_meal = Some Breakfast, records = []\<rparr> = Some Breakfast"
proof -
  have i: "iloc [[CStr [51216, 49900, 32, 50500, 52840]]] 0 0 = Inr (CStr [51216, 49900, 32, 50500, 52840])"
    by (simp add: iloc_def)
  have b: "py_in kw_breakfast (strip_spaces [51216, 49900, 32, 50500, 52840])"
    by (simp add: strip_lunch_breakfast kw_breakfast_def)
  have l: "py_in kw_lunch (strip_spaces [51216, 49900, 32, 50500, 52840])"
    by (simp add: strip_lunch_breakfast kw_lunch_def)
  from section_keyword_priority [OF i scan_row_lunch_breakfast] b l
  show ?thesis by simp
qed

subsection \<open>Macro rows and their lookahead\<close>

text \<open>
  C3 (lookahead skips blank rows). Row \<open>i\<close> is a macro row reached after a keyword row
  \<open>k\<close>, rows \<open>i + 1\<close> and \<open>i + 3\<close> have a blank first cell, rows \<open>i + 2\<close> and
  \<open>i + 4\<close> hold non-blank text: the iteration for row \<open>i\<close> appends exactly one record,
  whose name is the normalized text of row \<open>i + 2\<close> and whose quantity is the normalized
  text of row \<open>i + 4\<close>.
\<close>

theorem lookahead_skips_blank_rows:
  assumes "scan_upto fl df d i = Inr st"
    and "k < i" and "row_section df k \<noteq> None"
    and "macro_row df i"
    and "blank0 df (i + 1)"
    and "iloc df (i + 2) 0 = Inr (CStr n)" and "\<not> is_blank (CStr n)"
    and "blank0 df (i + 3)"
    and "iloc df (i + 4) 0 = Inr (CStr q)" and "\<not> is_blank (CStr q)"
  shows "\<exists>r. scan_upto fl df d (Suc i) = Inr (st\<lparr>records := records st @ [r]\<rparr>) \<and>
             rec_name r = strip_spaces n \<and> rec_qty r = strip_spaces q"
proof -
  have "current_meal st \<noteq> None"
    using cursor_last_section [OF assms(1)] last_section_seen [OF assms(2,3)] by simp
  then obtain m where m: "current_meal st = Some m" by auto
  have len: "i + 4 < length df"
    using assms(9) by (auto simp: iloc_def split: if_splits)
  have b1: "\<forall>j. i < j \<and> j < i + 2 \<longrightarrow> blank0 df j"
  proof (intro allI impI)
    fix j assume "i < j \<and> j < i + 2"
    then have "j = i + 1" by simp
    with assms(5) show "blank0 df j" by simp
  qed
  have b2: "\<forall>j. i + 2 < j \<and> j < i + 4 \<longrightarrow> blank0 df j"
  proof (intro allI impI)
    fix j assume "i + 2 < j \<and> j < i + 4"
    then have "j = i + 3" by simp
    with assms(8) show "blank0 df j" by simp
  qed
  have f: "find_name_qty fl df i = Inr (Some (strip_spaces (py_str fl (CStr n)), strip_spaces (py_str fl (CStr q))))"
    using len b1 b2 assms(6,7,9,10)
    by (intro find_name_qty_both [where k = "i + 2" and q = "i + 4"]) auto
  from macro_row_cells [OF assms(4)] obtain vals where v: "macro_cells df i = Inr vals" by blast
  let ?r = "\<lparr>rec_date = d, rec_name = strip_spaces n, rec_qty = strip_spaces q, rec_meal = m,
             fat = to_macro (vals ! 0), carb = to_macro (vals ! 1),
             protein = to_macro (vals ! 2), cal = to_macro (vals ! 3)\<rparr>"
  have "scan_upto fl df d (Suc i) = Inr (st\<lparr>records := records st @ [?r]\<rparr>)"
    by (simp add: scan_upto_Suc assms(1) scan_row_macro [OF assms(4) m] f v)
  then show ?thesis by (intro exI [of _ ?r]) simp
qed

text \<open>
  C4 (no record before the first section). The cursor starts undefined, and while no row
  up to and including row \<open>i\<close> holds a section keyword, the scan has emitted no record
  and the cursor is still undefined, whatever the rows after the macro rows contain.
\<close>

theorem no_record_before_first_section:
  assumes "\<forall>k\<le>i. row_section df k = None" and "scan_upto fl df d (Suc i) = Inr st"
  shows "current_meal init_state = None \<and> records st = [] \<and> current_meal st = None"
  using assms
proof (induction i arbitrary: st)
  case 0
  from "0.prems"(2) have r: "scan_row fl df d 0 init_state = Inr st"
    by (simp add: scan_upto_Suc scan_upto_0)
  have c: "current_meal st = None"
    using cursor_last_section [OF "0.prems"(2)] "0.prems"(1) by simp
  from scan_row_Inr [OF r] c have "records st = records init_state" by auto
  with c show ?case by (simp add: init_state_def)
next
  case (Suc i)
  from Suc.prems(2) obtain st0 where s0: "scan_upto fl df d (Suc i) = Inr st0"
      and r: "scan_row fl df d (Suc i) st0 = Inr st"
    by (auto simp: scan_upto_Suc [of fl df d "Suc i"] split: sum.splits)
  from Suc.prems(1) have "\<forall>k\<le>i. row_section df k = None" by simp
  from Suc.IH [OF this s0] have e: "records st0 = []" by simp
  have "last_section df (Suc (Suc i)) = None"
    using Suc.prems(1) by (intro last_section_None) auto
  then have c: "current_meal st = None"
    using cursor_last_section [OF Suc.prems(2)] by simp
  from scan_row_Inr [OF r] c have "records st = records st0" by auto
  with c e show ?case by (simp add: init_state_def)
qed

text \<open>
  C5 (name lookahead exhausted). When every row after the macro row \<open>i\<close> has a blank
  first cell, the iteration for row \<open>i\<close> returns and leaves the record list as it was.
\<close>

theorem no_record_without_name_row:
  assumes "scan_upto fl df d i = Inr st" and "macro_row df i" and "i < length df"
    and "\<forall>j. i < j \<and> j < length df \<longrightarrow> blank0 df j"
  shows "\<exists>st'. scan_upto fl df d (Suc i) = Inr st' \<and> records st' = records st"
proof (cases "current_meal st")
  case None
  then show ?thesis
    by (simp add: scan_upto_Suc assms(1) scan_row_macro_no_section [OF assms(2)])
next
  case (Some m)
  then show ?thesis
    by (simp add: scan_upto_Suc assms(1) scan_row_macro [OF assms(2) Some]
        find_name_qty_exhausted [OF assms(3,4)])
qed

text \<open>
  C6 (quantity lookahead exhausted), amended: the macro row \<open>i\<close> is reached after a
  keyword row, row \<open>n\<close> is the first row after it with a non-blank first cell, and every
  later row has a blank first cell: the iteration for row \<open>i\<close> appends exactly one
  record, named after row \<open>n\<close>, whose quantity is the empty string.
\<close>

theorem empty_quantity_without_quantity_row:
  assumes "scan_upto fl df d i = Inr st"
    and "k < i" and "row_section df k \<noteq> None"
    and "macro_row df i"
    and "i < n" and "n < length df"
    and "\<forall>j. i < j \<and> j < n \<longrightarrow> blank0 df j"
    and "iloc df n 0 = Inr c" and "\<not> is_blank c"
    and "\<forall>j. n < j \<and> j < length df \<longrightarrow> blank0 df j"
  shows "\<exists>r. scan_upto fl df d (Suc i) = Inr (st\<lparr>records := records st @ [r]\<rparr>) \<and>
             rec_name r = strip_spaces (py_str fl c) \<and> rec_qty r = []"
proof -
  have "current_meal st \<noteq> None"
    using cursor_last_section [OF assms(1)] last_section_seen [OF assms(2,3)] by simp
  then obtain m where m: "current_meal st = Some m" by auto
  have f: "find_name_qty fl df i = Inr (Some (strip_spaces (py_str fl c), []))"
    using assms(5-10) by (intro find_name_qty_name_only [where k = n]) auto
  from macro_row_cells [OF assms(4)] obtain vals where v: "macro_cells df i = Inr vals" by blast
  let ?r = "\<lparr>rec_date = d, rec_name = strip_spaces (py_str fl c), rec_qty = [], rec_meal = m,
             fat = to_macro (vals ! 0), carb = to_macro (vals ! 1),
             protein = to_macro (vals ! 2), cal = to_macro (vals ! 3)\<rparr>"
  have "scan_upto fl df d (Suc i) = Inr (st\<lparr>records := records st @ [?r]\<rparr>)"
    by (simp add: scan_upto_Suc assms(1) scan_row_macro [OF assms(4) m] f v)
  then show ?thesis by (intro exI [of _ ?r]) simp
qed

section \<open>Properties of the filter\<close>


section \<open>Properties of every returned record\<close>

lemma records_dates:
  "scan_upto fl df d k = Inr st \<Longrightarrow> list_all (\<lambda>r. rec_date r = d) (records st)"
proof (induction k arbitrary: st)
  case 0
  then show ?case by (auto simp: scan_upto_0 init_state_def)
next
  case (Suc k)
  from Suc.prems obtain st0 where s0: "scan_upto fl df d k = Inr st0"
      and r: "scan_row fl df d k st0 = Inr st"
    by (auto simp: scan_upto_Suc split: sum.splits)
  from Suc.IH [OF s0] have "list_all (\<lambda>r. rec_date r = d) (records st0)" .
  with scan_row_Inr [OF r] show ?case by auto
qed

lemma row_section_blank: "blank0 df i \<Longrightarrow> row_section df i = None"
  by (auto simp: blank0_def row_section_def update_meal_blank split: sum.splits)

lemma emitted_record_section:
  assumes "scan_upto fl df d n = Inr stn" and "r \<in> set (records stn)"
  shows "\<exists>i st st' k. i < n \<and> scan_upto fl df d i = Inr st \<and>
           scan_upto fl df d (Suc i) = Inr st' \<and> records st' = records st @ [r] \<and>
           k < i \<and> row_section df k = Some (rec_meal r) \<and>
           (\<forall>j. k < j \<and> j \<le> i \<longrightarrow> row_section df j = None)"
  using assms
proof (induction n arbitrary: stn)
  case 0
  then show ?case by (auto simp: scan_upto_0 init_state_def)
next
  case (Suc n)
  from Suc.prems(1) obtain st0 where s0: "scan_upto fl df d n = Inr st0"
      and row: "scan_row fl df d n st0 = Inr stn"
    by (auto simp: scan_upto_Suc split: sum.splits)
  from scan_row_Inr [OF row] obtain first where f: "iloc df n 0 = Inr first"
    and alt: "records stn = records st0 \<or>
       (\<exists>r'. records stn = records st0 @ [r'] \<and> rec_date r' = d \<and> is_blank first \<and>
             current_meal stn = Some (rec_meal r'))" by blast
  show ?case
  proof (cases "r \<in> set (records st0)")
    case True
    from Suc.IH [OF s0 True] obtain i st st' k where
      "i < n" "scan_upto fl df d i = Inr st" "scan_upto fl df d (Suc i) = Inr st'"
      "records st' = records st @ [r]" "k < i" "row_section df k = Some (rec_meal r)"
      "\<forall>j. k < j \<and> j \<le> i \<longrightarrow> row_section df j = None" by blast
    then show ?thesis by (metis less_SucI)
  next
    case False
    with alt Suc.prems(2) have new: "records stn = records st0 @ [r]"
        and b: "is_blank first" and c: "current_meal stn = Some (rec_meal r)" by auto
    from c cursor_last_section [OF Suc.prems(1)]
    have "last_section df (Suc n) = Some (rec_meal r)" by simp
    from last_section_Some [OF this] obtain k where k: "k < Suc n"
        "row_section df k = Some (rec_meal r)"
        "\<forall>j. k < j \<and> j < Suc n \<longrightarrow> row_section df j = None" by blast
    have "row_section df n = None" using f b by (intro row_section_blank) (simp add: blank0_def)
    with k(1,2) have kn: "k < n" by (cases "k = n") auto
    have "\<forall>j. k < j \<and> j \<le> n \<longrightarrow> row_section df j = None" using k(3) by auto
    with s0 Suc.prems(1) new kn k(2) show ?thesis by blast
  qed
qed

text \<open>
  C7 (section of a record). Every record the scanner returns was appended by the
  iteration for some row \<open>i\<close>, and its section is the one of a keyword row \<open>k\<close> before
  \<open>i\<close> such that no row after \<open>k\<close> up to \<open>i\<close> holds a section keyword: the most recent
  keyword row, whatever the order in which the sections appear.
\<close>

theorem record_section_is_last_keyword:
  assumes "parse_diet_file fl df = Inr rs" and "r \<in> set rs"
  shows "\<exists>d i st st' k. i < length df \<and> scan_upto fl df d i = Inr st \<and>
           scan_upto fl df d (Suc i) = Inr st' \<and> records st' = records st @ [r] \<and>
           k < i \<and> row_section df k = Some (rec_meal r) \<and>
           (\<forall>j. k < j \<and> j \<le> i \<longrightarrow> row_section df j = None)"
proof -
  from assms obtain c st where "scan_upto fl df (date_of fl c) (length df) = Inr st"
      and "r \<in> set (records st)"
    by (auto simp: parse_diet_file_def split: sum.splits)
  from emitted_record_section [OF this] show ?thesis by blast
qed

text \<open>
  C10 (date). Every record the scanner returns carries the empty string as its date when
  the cell in row 0, column 0 is \<open>None\<close>, and the normalized \<open>str\<close> of that cell
  otherwise, whether the cell is text or a float.
\<close>

theorem record_date_from_first_cell:
  assumes "parse_diet_file fl df = Inr rs" and "iloc df 0 0 = Inr c"
  shows "list_all (\<lambda>r. rec_date r = (if c = CNone then [] else strip_spaces (py_str fl c))) rs"
proof -
  from assms obtain st where s: "scan_upto fl df (date_of fl c) (length df) = Inr st"
      and rs: "rs = records st"
    by (auto simp: parse_diet_file_def split: sum.splits)
  from records_dates [OF s] show ?thesis
    by (cases "c = CNone") (simp_all add: rs date_of_def)
qed

lemma date_of_nan: "date_of fl (CFloat NaN) = [110, 97, 110]"
  by (simp add: date_of_def strip_spaces_def py_strip_def remove_char_def isspace_def)

section \<open>The scanner returns on every sheet with five columns\<close>

text \<open>
  The only exception the scan can raise is the IndexError of \<open>iloc\<close>: on a sheet with at
  least one row and five columns in every row, \<open>parse_diet_file\<close> returns a record list.
\<close>

lemma iloc_wide:
  "wide df \<Longrightarrow> i < length df \<Longrightarrow> j < 5 \<Longrightarrow> iloc df i j = Inr (df ! i ! j)"
  by (auto simp: wide_def iloc_def list_all_length)

lemma skip_blank_wide: "wide df \<Longrightarrow> \<exists>r. skip_blank df a = Inr r"
proof (induction df a rule: skip_blank.induct)
  case (1 df r)
  show ?case
  proof (cases "r < length df")
    case True
    with "1.prems" have c: "iloc df r 0 = Inr (df ! r ! 0)" by (simp add: iloc_wide)
    show ?thesis
    proof (cases "is_blank (df ! r ! 0)")
      case b: True
      from "1.IH" [OF True c b "1.prems"] obtain r' where "skip_blank df (Suc r) = Inr r'" by blast
      with True c b show ?thesis by (subst skip_blank.simps) simp
    next
      case False
      with True c show ?thesis by (subst skip_blank.simps) simp
    qed
  next
    case False
    then show ?thesis by (subst skip_blank.simps) simp
  qed
qed

lemma find_name_qty_wide:
  assumes "wide df"
  shows "\<exists>x. find_name_qty fl df i = Inr x"
proof -
  from skip_blank_wide [OF assms] obtain k where k: "skip_blank df (Suc i) = Inr k" by blast
  from skip_blank_wide [OF assms] obtain q where q: "skip_blank df (Suc k) = Inr q" by blast
  show ?thesis
    using iloc_wide [OF assms, of k 0] iloc_wide [OF assms, of q 0]
    by (simp add: find_name_qty_def k q)
qed

lemma macro_cells_wide:
  "wide df \<Longrightarrow> i < length df \<Longrightarrow> \<exists>vals. macro_cells df i = Inr vals"
  by (simp add: macro_cells_def iloc_wide)

lemma scan_row_wide:
  assumes "wide df" and "i < length df"
  shows "\<exists>st'. scan_row fl df d i st = Inr st'"
proof -
  from macro_cells_wide [OF assms] obtain vals where v: "macro_cells df i = Inr vals" by blast
  from find_name_qty_wide [OF assms(1)] obtain x where x: "find_name_qty fl df i = Inr x" by blast
  show ?thesis
    unfolding scan_row_def
    by (simp add: iloc_wide [OF assms] v x Let_def split: option.splits prod.splits)
qed

lemma scan_upto_wide:
  "wide df \<Longrightarrow> k \<le> length df \<Longrightarrow> \<exists>st. scan_upto fl df d k = Inr st"
proof (induction k)
  case 0
  then show ?case by (simp add: scan_upto_0)
next
  case (Suc k)
  then obtain st where "scan_upto fl df d k = Inr st" by auto
  moreover from Suc.prems have "\<exists>st'. scan_row fl df d k st = Inr st'"
    by (intro scan_row_wide) auto
  ultimately show ?case by (auto simp: scan_upto_Suc)
qed

lemma parse_diet_file_returns:
  assumes "wide df" and "df \<noteq> []"
  shows "\<exists>rs. parse_diet_file fl df = Inr rs"
proof -
  from assms have "iloc df 0 0 = Inr (df ! 0 ! 0)" by (intro iloc_wide) auto
  moreover from scan_upto_wide [OF assms(1)]
  obtain st where "scan_upto fl df (date_of fl (df ! 0 ! 0)) (length df) = Inr st" by blast
  ultimately show ?thesis by (simp add: parse_diet_file_def)
qed

lemma parse_diet_file_empty: "parse_diet_file fl [] = Inl IndexError"
  by (simp add: parse_diet_file_def iloc_def)

lemma sheets_wide: "wide sheet_a \<and> wide sheet_b"
  by (simp add: wide_def sheet_a_def sheet_b_def)

section \<open>The scan of the example sheets\<close>

lemmas eval_row = scan_row_def iloc_def macro_cells_def is_number_def find_name_qty_def
  skip_blank.simps strip_spaces_def py_strip_def remove_char_def isspace_def to_macro_def
  kw_breakfast_def kw_lunch_def kw_dinner_def kw_snack_slash_def kw_snack_def Let_def

lemma sheet_a_upto_1: "scan_upto (\<lambda>r. []) sheet_a [68] 1 = Inr init_state"
proof -
  have "scan_upto (\<lambda>r. []) sheet_a [68] (Suc 0) = Inr init_state"
    apply (subst scan_upto_Suc)
    apply (simp only: scan_upto_0 sum.case)
    apply (simp add: sheet_a_def init_state_def eval_row)
    done
  then show ?thesis by simp
qed

lemma sheet_a_upto_2: "scan_upto (\<lambda>r. []) sheet_a [68] 2 = Inr init_state"
proof -
  have "scan_upto (\<lambda>r. []) sheet_a [68] (Suc 1) = Inr init_state"
    apply (subst scan_upto_Suc)
    apply (simp only: sheet_a_upto_1 sum.case)
    apply (simp add: sheet_a_def init_state_def eval_row)
    done
  then show ?thesis by (simp add: numeral_2_eq_2)
qed

lemma sheet_a_upto_3:
  "scan_upto (\<lambda>r. []) sheet_a [68] 3 = Inr \<lparr>current_meal = Some Lunch, records = []\<rparr>"
proof -
  have "scan_upto (\<lambda>r. []) sheet_a [68] (Suc 2) = Inr \<lparr>current_meal = Some Lunch, records = []\<rparr>"
    apply (subst scan_upto_Suc)
    apply (simp only: sheet_a_upto_2 sum.case)
    apply (simp add: sheet_a_def init_state_def eval_row)
    done
  then show ?thesis by simp
qed

lemma sheet_a_upto_4:
  "scan_upto (\<lambda>r. []) sheet_a [68] 4 = Inr \<lparr>current_meal = Some Lunch, records = [rec_a1]\<rparr>"
proof -
  have "scan_upto (\<lambda>r. []) sheet_a [68] (Suc 3) = Inr \<lparr>current_meal = Some Lunch, records = [rec_a1]\<rparr>"
    apply (subst scan_upto_Suc)
    apply (simp only: sheet_a_upto_3 sum.case)
    apply (simp add: sheet_a_def rec_a1_def eval_row)
    done
  then show ?thesis by simp
qed

lemma sheet_a_upto_5:
  "scan_upto (\<lambda>r. []) sheet_a [68] 5 = Inr \<lparr>current_meal = Some Lunch, records = [rec_a1, rec_a2]\<rparr>"
proof -
  have "scan_upto (\<lambda>r. []) sheet_a [68] (Suc 4) = Inr \<lparr>current_meal = Some Lunch, records = [rec_a1, rec_a2]\<rparr>"
    apply (subst scan_upto_Suc)
    apply (simp only: sheet_a_upto_4 sum.case)
    apply (simp add: sheet_a_def rec_a2_def eval_row)
    done
  then show ?thesis by simp
qed

lemma sheet_a_upto_6:
  "scan_upto (\<lambda>r. []) sheet_a [68] 6 = Inr \<lparr>current_meal = Some Lunch, records = [rec_a1, rec_a2]\<rparr>"
proof -
  have "scan_upto (\<lambda>r. []) sheet_a [68] (Suc 5) = Inr \<lparr>current_meal = Some Lunch, records = [rec_a1, rec_a2]\<rparr>"
    apply (subst scan_upto_Suc)
    apply (simp only: sheet_a_upto_5 sum.case)
    apply (simp add: sheet_a_def eval_row)
    done
  then show ?thesis by simp
qed

lemma sheet_a_upto_7:
  "scan_upto (\<lambda>r. []) sheet_a [68] 7 =
     Inr \<lparr>current_meal = Some Lunch, records = [rec_a1, rec_a2, rec_a3]\<rparr>"
proof -
  have "scan_upto (\<lambda>r. []) sheet_a [68] (Suc 6) =
      Inr \<lparr>current_meal = Some Lunch, records = [rec_a1, rec_a2, rec_a3]\<rparr>"
    apply (subst scan_upto_Suc)
    apply (simp only: sheet_a_upto_6 sum.case)
    apply (simp add: sheet_a_def rec_a3_def eval_row)
    done
  then show ?thesis by simp
qed

lemma sheet_a_upto_8:
  "scan_upto (\<lambda>r. []) sheet_a [68] 8 =
     Inr \<lparr>current_meal = Some Lunch, records = [rec_a1, rec_a2, rec_a3]\<rparr>"
proof -
  have "scan_upto (\<lambda>r. []) sheet_a [68] (Suc 7) =
      Inr \<lparr>current_meal = Some Lunch, records = [rec_a1, rec_a2, rec_a3]\<rparr>"
    apply (subst scan_upto_Suc)
    apply (simp only: sheet_a_upto_7 sum.case)
    apply (simp add: sheet_a_def eval_row)
    done
  then show ?thesis by simp
qed

lemma sheet_a_parse: "parse_diet_file (\<lambda>r. []) sheet_a = Inr [rec_a1, rec_a2, rec_a3]"
proof -
  have l: "length sheet_a = 8" by (simp add: sheet_a_def)
  have d: "iloc sheet_a 0 0 = Inr (CStr [68])" by (simp add: sheet_a_def iloc_def)
  have dd: "date_of (\<lambda>r. []) (CStr [68]) = [68]"
    by (simp add: date_of_def strip_spaces_def py_strip_def remove_char_def isspace_def)
  show ?thesis by (simp add: parse_diet_file_def l d dd sheet_a_upto_8)
qed


lemmas eval_cell = iloc_def blank0_def row_section_def macro_row_def macro_cells_def
  is_number_def strip_spaces_def py_strip_def remove_char_def isspace_def
  kw_breakfast_def kw_lunch_def kw_dinner_def kw_snack_slash_def kw_snack_def Let_def

lemma sheet_b_upto_2:
  "scan_upto (\<lambda>r. []) sheet_b [68] 2 = Inr \<lparr>current_meal = Some Lunch, records = []\<rparr>"
proof -
  have "scan_upto (\<lambda>r. []) sheet_b [68] (Suc 0) = Inr init_state"
    apply (subst scan_upto_Suc)
    apply (simp only: scan_upto_0 sum.case)
    apply (simp add: sheet_b_def init_state_def eval_row)
    done
  then have "scan_upto (\<lambda>r. []) sheet_b [68] (Suc (Suc 0)) =
      Inr \<lparr>current_meal = Some Lunch, records = []\<rparr>"
    apply (subst scan_upto_Suc)
    apply (simp only: sum.case)
    apply (simp add: sheet_b_def init_state_def eval_row)
    done
  then show ?thesis by (simp add: numeral_2_eq_2)
qed


theorem lookahead_skips_blank_rows_witness:
  "macro_row sheet_a 3 \<and> blank0 sheet_a 4 \<and> iloc sheet_a 5 0 = Inr (CStr [65]) \<and>
   blank0 sheet_a 6 \<and> iloc sheet_a 7 0 = Inr (CStr [66]) \<and>
   (\<exists>r. scan_upto (\<lambda>r. []) sheet_a [68] 4 =
           Inr \<lparr>current_meal = Some Lunch, records = [r]\<rparr> \<and>
        rec_name r = [65] \<and> rec_qty r = [66])"
proof -
  have k: "(2::nat) < 3" by simp
  have s: "row_section sheet_a 2 \<noteq> None" by (simp add: sheet_a_def eval_cell)
  have m: "macro_row sheet_a 3" by (simp add: sheet_a_def eval_cell)
  have b1: "blank0 sheet_a (3 + 1)" by (simp add: sheet_a_def eval_cell)
  have n: "iloc sheet_a (3 + 2) 0 = Inr (CStr [65])" by (simp add: sheet_a_def eval_cell)
  have nb: "\<not> is_blank (CStr [65])" by (simp add: eval_cell)
  have b2: "blank0 sheet_a (3 + 3)" by (simp add: sheet_a_def eval_cell)
  have q: "iloc sheet_a (3 + 4) 0 = Inr (CStr [66])" by (simp add: sheet_a_def eval_cell)
  have qb: "\<not> is_blank (CStr [66])" by (simp add: eval_cell)
  have e: "strip_spaces [65] = [65]" "strip_spaces [66] = [66]" by (simp_all add: eval_cell)
  from lookahead_skips_blank_rows [OF sheet_a_upto_3 k s m b1 n nb b2 q qb]
  have "\<exists>r. scan_upto (\<lambda>r. []) sheet_a [68] 4 =
           Inr \<lparr>current_meal = Some Lunch, records = [r]\<rparr> \<and>
        rec_name r = [65] \<and> rec_qty r = [66]"
    by (simp add: e)
  with m b1 n b2 q show ?thesis by simp
qed

theorem no_record_before_first_section_witness:
  "macro_row sheet_a 1 \<and> row_section sheet_a 0 = None \<and> row_section sheet_a 1 = None \<and>
   scan_upto (\<lambda>r. []) sheet_a [68] 2 = Inr init_state \<and>
   records init_state = [] \<and> current_meal init_state = None"
proof -
  have m: "macro_row sheet_a 1" by (simp add: sheet_a_def eval_cell)
  have r0: "row_section sheet_a 0 = None" by (simp add: sheet_a_def eval_cell)
  have r1: "row_section sheet_a 1 = None" by (simp add: sheet_a_def eval_cell)
  have a: "\<forall>k\<le>1. row_section sheet_a k = None"
  proof (intro allI impI)
    fix k :: nat assume "k \<le> 1"
    then have "k = 0 \<or> k = 1" by auto
    with r0 r1 show "row_section sheet_a k = None" by auto
  qed
  have s: "scan_upto (\<lambda>r. []) sheet_a [68] (Suc 1) = Inr init_state"
    using sheet_a_upto_2 by (simp add: numeral_2_eq_2)
  from no_record_before_first_section [OF a s] m r0 r1 sheet_a_upto_2
  show ?thesis by simp
qed

theorem no_record_without_name_row_witness:
  "macro_row sheet_b 2 \<and> blank0 sheet_b 3 \<and> length sheet_b = 4 \<and>
   scan_upto (\<lambda>r. []) sheet_b [68] 2 = Inr \<lparr>current_meal = Some Lunch, records = []\<rparr> \<and>
   (\<exists>st'. scan_upto (\<lambda>r. []) sheet_b [68] 3 = Inr st' \<and> records st' = [])"
proof -
  have m: "macro_row sheet_b 2" by (simp add: sheet_b_def eval_cell)
  have l: "length sheet_b = 4" by (simp add: sheet_b_def)
  have i: "2 < length sheet_b" by (simp add: l)
  have b3: "blank0 sheet_b 3" by (simp add: sheet_b_def eval_cell)
  have a: "\<forall>j. 2 < j \<and> j < length sheet_b \<longrightarrow> blank0 sheet_b j"
  proof (intro allI impI)
    fix j :: nat assume "2 < j \<and> j < length sheet_b"
    then have "j = 3" by (simp add: l)
    with b3 show "blank0 sheet_b j" by simp
  qed
  from no_record_without_name_row [OF sheet_b_upto_2 m i a]
  have "\<exists>st'. scan_upto (\<lambda>r. []) sheet_b [68] 3 = Inr st' \<and> records st' = []"
    by (simp add: numeral_3_eq_3)
  with m b3 l sheet_b_upto_2 show ?thesis by simp
qed

theorem empty_quantity_without_quantity_row_witness:
  "macro_row sheet_a 6 \<and> iloc sheet_a 7 0 = Inr (CStr [66]) \<and> length sheet_a = 8 \<and>
   (\<exists>r. scan_upto (\<lambda>r. []) sheet_a [68] 7 =
           Inr \<lparr>current_meal = Some Lunch, records = [rec_a1, rec_a2, r]\<rparr> \<and>
        rec_name r = [66] \<and> rec_qty r = [])"
proof -
  have k: "(2::nat) < 6" by simp
  have s: "row_section sheet_a 2 \<noteq> None" by (simp add: sheet_a_def eval_cell)
  have m: "macro_row sheet_a 6" by (simp add: sheet_a_def eval_cell)
  have l: "length sheet_a = 8" by (simp add: sheet_a_def)
  have i: "(6::nat) < 7" by simp
  have n: "7 < length sheet_a" by (simp add: l)
  have a1: "\<forall>j. 6 < j \<and> j < 7 \<longrightarrow> blank0 sheet_a j" by auto
  have c: "iloc sheet_a 7 0 = Inr (CStr [66])" by (simp add: sheet_a_def eval_cell)
  have cb: "\<not> is_blank (CStr [66])" by (simp add: eval_cell)
  have a2: "\<forall>j. 7 < j \<and> j < length sheet_a \<longrightarrow> blank0 sheet_a j" by (auto simp: l)
  have e: "strip_spaces [66] = [66]" by (simp add: eval_cell)
  from empty_quantity_without_quantity_row [OF sheet_a_upto_6 k s m i n a1 c cb a2]
  have "\<exists>r. scan_upto (\<lambda>r. []) sheet_a [68] 7 =
           Inr \<lparr>current_meal = Some Lunch, records = [rec_a1, rec_a2, r]\<rparr> \<and>
        rec_name r = [66] \<and> rec_qty r = []"
    by (simp add: e)
  with m c l show ?thesis by simp
qed

theorem record_section_is_last_keyword_witness:
  "parse_diet_file (\<lambda>r. []) sheet_a = Inr [rec_a1, rec_a2, rec_a3] \<and>
   (\<exists>d i st st' k. i < length sheet_a \<and> scan_upto (\<lambda>r. []) sheet_a d i = Inr st \<and>
      scan_upto (\<lambda>r. []) sheet_a d (Suc i) = Inr st' \<and> records st' = records st @ [rec_a3] \<and>
      k < i \<and> row_section sheet_a k = Some (rec_meal rec_a3) \<and> row_section sheet_a i = None)"
proof -
  have "rec_a3 \<in> set [rec_a1, rec_a2, rec_a3]" by simp
  from record_section_is_last_keyword [OF sheet_a_parse this]
  obtain d i st st' k where "i < length sheet_a" "scan_upto (\<lambda>r. []) sheet_a d i = Inr st"
    "scan_upto (\<lambda>r. []) sheet_a d (Suc i) = Inr st'" "records st' = records st @ [rec_a3]"
    "k < i" "row_section sheet_a k = Some (rec_meal rec_a3)"
    "\<forall>j. k < j \<and> j \<le> i \<longrightarrow> row_section sheet_a j = None" by blast
  then show ?thesis using sheet_a_parse by blast
qed

theorem record_date_from_first_cell_witness:
  "parse_diet_file (\<lambda>r. []) sheet_a = Inr [rec_a1, rec_a2, rec_a3] \<and>
   iloc sheet_a 0 0 = Inr (CStr [68]) \<and>
   rec_date rec_a1 = strip_spaces [68] \<and> rec_date rec_a2 = strip_spaces [68] \<and>
   rec_date rec_a3 = strip_spaces [68]"
proof -
  have c: "iloc sheet_a 0 0 = Inr (CStr [68])" by (simp add: sheet_a_def iloc_def)
  from record_date_from_first_cell [OF sheet_a_parse c] sheet_a_parse c
  show ?thesis by simp
qed

subsection \<open>A sheet without a section header\<close>

lemma sheet_c_upto_1: "scan_upto no_repr sheet_c [68] 1 = Inr init_state"
proof -
  have "scan_upto no_repr sheet_c [68] (Suc 0) = Inr init_state"
    apply (subst scan_upto_Suc)
    apply (simp only: scan_upto_0 sum.case)
    apply (simp add: sheet_c_def init_state_def eval_row)
    done
  then show ?thesis by simp
qed

lemma sheet_c_upto_2: "scan_upto no_repr sheet_c [68] 2 = Inr init_state"
proof -
  have "scan_upto no_repr sheet_c [68] (Suc 1) = Inr init_state"
    apply (subst scan_upto_Suc)
    apply (simp only: sheet_c_upto_1 sum.case)
    apply (simp add: sheet_c_def init_state_def eval_row)
    done
  then show ?thesis by (simp add: numeral_2_eq_2)
qed

lemma sheet_c_upto_3: "scan_upto no_repr sheet_c [68] 3 = Inr init_state"
proof -
  have "scan_upto no_repr sheet_c [68] (Suc 2) = Inr init_state"
    apply (subst scan_upto_Suc)
    apply (simp only: sheet_c_upto_2 sum.case)
    apply (simp add: sheet_c_def init_state_def eval_row)
    done
  then show ?thesis by (simp add: numeral_3_eq_3)
qed

lemma sheet_c_lookahead: "find_name_qty no_repr sheet_c 1 = Inr (Some ([65], []))"
  by (simp add: sheet_c_def eval_row)

text \<open>
  C6 (quantity lookahead exhausted), as stated for every macro row: in \<open>sheet_c\<close> row 1
  is a macro row, its name lookahead finds the non-blank row 2 and its quantity lookahead
  runs off the grid, yet the iteration for row 1 appends nothing and the scanner returns
  no record, because no section keyword precedes the row and the body leaves the
  iteration before any lookahead.
\<close>

theorem no_record_without_section_despite_name:
  "macro_row sheet_c 1 \<and> length sheet_c = 3 \<and>
   iloc sheet_c 2 0 = Inr (CStr [65]) \<and> \<not> is_blank (CStr [65]) \<and>
   find_name_qty no_repr sheet_c 1 = Inr (Some ([65], [])) \<and>
   scan_upto no_repr sheet_c [68] 1 = Inr init_state \<and>
   scan_upto no_repr sheet_c [68] 2 = Inr init_state \<and>
   records init_state = [] \<and>
   parse_diet_file no_repr sheet_c = Inr []"
proof -
  have m: "macro_row sheet_c 1" by (simp add: sheet_c_def eval_cell)
  have l: "length sheet_c = 3" by (simp add: sheet_c_def)
  have c: "iloc sheet_c 2 0 = Inr (CStr [65])" by (simp add: sheet_c_def iloc_def)
  have nb: "\<not> is_blank (CStr [65])" by (simp add: eval_cell)
  have d: "iloc sheet_c 0 0 = Inr (CStr [68])" by (simp add: sheet_c_def iloc_def)
  have dd: "date_of no_repr (CStr [68]) = [68]"
    by (simp add: date_of_def strip_spaces_def py_strip_def remove_char_def isspace_def)
  have p: "parse_diet_file no_repr sheet_c = Inr []"
    by (simp add: parse_diet_file_def l d dd sheet_c_upto_3 init_state_def)
  show ?thesis
    using m l c nb sheet_c_lookahead sheet_c_upto_1 sheet_c_upto_2 p
    by (simp add: init_state_def)
qed

end
